theory Spec2Isabelle
  imports Complex_Main
begin

section \<open>Numbers of the sampler\<close>

text \<open>
  The notebook \<^verbatim>\<open>gibbs_augmented.ipynb\<close> computes with IEEE doubles (Python floats
  and numpy float64). They are idealised here: a finite double is a real number (no
  rounding, no overflow, no signed zero), and the three special values a numpy operation
  can produce instead of raising are kept, since the sampling primitives see them.
\<close>

datatype fl = Fin real | PInf | NInf | NaN

datatype error = ZeroDivisionError | ValueError

fun fneg :: "fl \<Rightarrow> fl" where
  "fneg (Fin a) = Fin (- a)"
| "fneg PInf = NInf"
| "fneg NInf = PInf"
| "fneg NaN = NaN"

fun fadd :: "fl \<Rightarrow> fl \<Rightarrow> fl" where
  "fadd (Fin a) (Fin b) = Fin (a + b)"
| "fadd NaN _ = NaN"
| "fadd _ NaN = NaN"
| "fadd PInf NInf = NaN"
| "fadd NInf PInf = NaN"
| "fadd PInf _ = PInf"
| "fadd _ PInf = PInf"
| "fadd NInf _ = NInf"
| "fadd _ NInf = NInf"

definition fsub :: "fl \<Rightarrow> fl \<Rightarrow> fl" where
  "fsub a b = fadd a (fneg b)"

fun fmul :: "fl \<Rightarrow> fl \<Rightarrow> fl" where
  "fmul (Fin a) (Fin b) = Fin (a * b)"
| "fmul NaN _ = NaN"
| "fmul _ NaN = NaN"
| "fmul PInf (Fin b) = (if b = 0 then NaN else if 0 < b then PInf else NInf)"
| "fmul NInf (Fin b) = (if b = 0 then NaN else if 0 < b then NInf else PInf)"
| "fmul (Fin a) PInf = (if a = 0 then NaN else if 0 < a then PInf else NInf)"
| "fmul (Fin a) NInf = (if a = 0 then NaN else if 0 < a then NInf else PInf)"
| "fmul PInf PInf = PInf"
| "fmul NInf NInf = PInf"
| "fmul PInf NInf = NInf"
| "fmul NInf PInf = NInf"

text \<open>
  numpy's division: a zero divisor gives an infinity or NaN (with a warning), never an
  exception.
\<close>

fun fdiv :: "fl \<Rightarrow> fl \<Rightarrow> fl" where
  "fdiv (Fin a) (Fin b) =
     (if b \<noteq> 0 then Fin (a / b)
      else if a = 0 then NaN else if 0 < a then PInf else NInf)"
| "fdiv NaN _ = NaN"
| "fdiv _ NaN = NaN"
| "fdiv (Fin a) _ = Fin 0"
| "fdiv PInf (Fin b) = (if 0 \<le> b then PInf else NInf)"
| "fdiv NInf (Fin b) = (if 0 \<le> b then NInf else PInf)"
| "fdiv _ _ = NaN"

text \<open>Python's own float division raises on a zero divisor.\<close>

definition py_truediv :: "fl \<Rightarrow> fl \<Rightarrow> error + fl" where
  "py_truediv a b = (if b = Fin 0 then Inl ZeroDivisionError else Inr (fdiv a b))"

fun fsqrt :: "fl \<Rightarrow> fl" where
  "fsqrt (Fin a) = (if 0 \<le> a then Fin (sqrt a) else NaN)"
| "fsqrt PInf = PInf"
| "fsqrt NInf = NaN"
| "fsqrt NaN = NaN"

definition fsq :: "fl \<Rightarrow> fl" where
  "fsq x = fmul x x"

text \<open>The sum of an array; over these numbers the order of the additions does not matter.\<close>

definition np_sum :: "fl list \<Rightarrow> fl" where
  "np_sum xs = foldl fadd (Fin 0) xs"

definition np_mean :: "fl list \<Rightarrow> fl" where
  "np_mean xs = fdiv (np_sum xs) (Fin (real (length xs)))"

text \<open>\<^verbatim>\<open>np.var(returns, ddof=1)\<close>: the divisor is \<open>max (n - ddof) 0\<close>.\<close>

definition np_var_ddof1 :: "fl list \<Rightarrow> fl" where
  "np_var_ddof1 xs =
     (let arrmean = np_mean xs;
          x = map (\<lambda>r. fsub r arrmean) xs
      in fdiv (np_sum (map fsq x)) (Fin (of_int (max (int (length xs) - 1) 0))))"

definition np_ones :: "nat \<Rightarrow> fl list" where
  "np_ones n = replicate n (Fin 1)"

definition np_zeros :: "int \<Rightarrow> error + fl list" where
  "np_zeros k = (if k < 0 then Inl ValueError else Inr (replicate (nat k) (Fin 0)))"

text \<open>Elementwise product of two one-dimensional arrays, with numpy's broadcasting.\<close>

definition np_multiply :: "fl list \<Rightarrow> fl list \<Rightarrow> error + fl list" where
  "np_multiply xs ys =
     (if length xs = length ys then Inr (map2 fmul xs ys)
      else if length xs = 1 then Inr (map (fmul (hd xs)) ys)
      else if length ys = 1 then Inr (map (\<lambda>x. fmul x (hd ys)) xs)
      else Inl ValueError)"

text \<open>\<^verbatim>\<open>a[b:]\<close> for an integer \<open>b\<close>: a negative start counts from the end.\<close>

definition py_slice_from :: "'a list \<Rightarrow> int \<Rightarrow> 'a list" where
  "py_slice_from xs b =
     (if b < 0 then drop (nat (int (length xs) + b)) xs else drop (nat b) xs)"

section \<open>The sampling facility\<close>

text \<open>
  numpy's global generator and scipy's distributions are collaborators of the notebook,
  not part of it. They are a parameter of the model: a generator state \<open>'g\<close> and four
  operations on it that either raise or return the draw and the new state.
  scipy's \<^verbatim>\<open>rvs\<close> draws from numpy's global generator, so the three draws and the
  seeding act on one state.
\<close>

record 'g sampler =
  np_random_seed :: "int \<Rightarrow> 'g \<Rightarrow> error + 'g"
  gamma_rvs :: "fl \<Rightarrow> fl list \<Rightarrow> 'g \<Rightarrow> error + (fl list \<times> 'g)"
  np_random_normal :: "fl \<Rightarrow> fl \<Rightarrow> 'g \<Rightarrow> error + (fl \<times> 'g)"
  invgamma_rvs :: "fl \<Rightarrow> fl \<Rightarrow> 'g \<Rightarrow> error + (fl \<times> 'g)"

section \<open>gibbs_sharpe_student\<close>

record hyper =
  nu :: fl
  n_iter :: int
  burn_in :: int
  mu0 :: fl
  tau2 :: fl
  a0 :: fl
  b0 :: fl
  seed :: int

definition default_hyper :: hyper where
  "default_hyper =
     \<lparr>nu = Fin 3, n_iter = 5000, burn_in = 500, mu0 = Fin 0, tau2 = Fin 1000,
      a0 = Fin 2, b0 = Fin 2, seed = 42\<rparr>"

text \<open>The local variables of the function that live across iterations, and the generator.\<close>

record 'g chain =
  mu :: fl
  sigma2 :: fl
  lambdas :: "fl list"
  mu_samples :: "fl list"
  sigma2_samples :: "fl list"
  sharpe_samples :: "fl list"
  rng :: 'g

text \<open>Step 1 of the loop body: \<^verbatim>\<open>lambdas = gamma.rvs(a=shape, scale=scale)\<close>.\<close>

definition update_lambdas ::
  "'g sampler \<Rightarrow> hyper \<Rightarrow> fl list \<Rightarrow> 'g chain \<Rightarrow> error + 'g chain" where
  "update_lambdas P hp returns st =
     (let resids = map (\<lambda>r. fsub r (mu st)) returns;
          shape = fdiv (fadd (nu hp) (Fin 1)) (Fin 2);
          scale = map (\<lambda>r. fdiv (Fin 2) (fadd (nu hp) (fdiv (fsq r) (sigma2 st)))) resids
      in case gamma_rvs P shape scale (rng st) of
           Inl e \<Rightarrow> Inl e
         | Inr (ls, g) \<Rightarrow> Inr (st\<lparr>lambdas := ls, rng := g\<rparr>))"

text \<open>
  Step 2: \<^verbatim>\<open>mu = np.random.normal(mu_n, np.sqrt(tau2_n))\<close>. The hyperparameters are
  Python floats, as the signature declares them, so the two divisions by \<open>tau2\<close> are
  Python's; every other division has a numpy operand and is numpy's.
\<close>

definition update_mu ::
  "'g sampler \<Rightarrow> hyper \<Rightarrow> fl list \<Rightarrow> 'g chain \<Rightarrow> error + 'g chain" where
  "update_mu P hp returns st =
     (case py_truediv (Fin 1) (tau2 hp) of
        Inl e \<Rightarrow> Inl e
      | Inr q1 \<Rightarrow>
          (let tau2_n = fdiv (Fin 1) (fadd q1 (fdiv (np_sum (lambdas st)) (sigma2 st)))
           in case py_truediv (mu0 hp) (tau2 hp) of
                Inl e \<Rightarrow> Inl e
              | Inr q2 \<Rightarrow>
                  (case np_multiply (lambdas st) returns of
                     Inl e \<Rightarrow> Inl e
                   | Inr lr \<Rightarrow>
                       (let mu_n = fmul tau2_n (fadd q2 (fdiv (np_sum lr) (sigma2 st)))
                        in case np_random_normal P mu_n (fsqrt tau2_n) (rng st) of
                             Inl e \<Rightarrow> Inl e
                           | Inr (m, g) \<Rightarrow> Inr (st\<lparr>mu := m, rng := g\<rparr>)))))"

text \<open>Step 3: \<^verbatim>\<open>sigma2 = invgamma.rvs(a=a_n, scale=b_n)\<close>.\<close>

definition update_sigma2 ::
  "'g sampler \<Rightarrow> hyper \<Rightarrow> fl list \<Rightarrow> 'g chain \<Rightarrow> error + 'g chain" where
  "update_sigma2 P hp returns st =
     (let a_n = fadd (a0 hp) (fdiv (Fin (real (length returns))) (Fin 2))
      in case np_multiply (lambdas st) (map (\<lambda>r. fsq (fsub r (mu st))) returns) of
           Inl e \<Rightarrow> Inl e
         | Inr w \<Rightarrow>
             (let b_n = fadd (b0 hp) (fmul (Fin (1 / 2)) (np_sum w))
              in case invgamma_rvs P a_n b_n (rng st) of
                   Inl e \<Rightarrow> Inl e
                 | Inr (s, g) \<Rightarrow> Inr (st\<lparr>sigma2 := s, rng := g\<rparr>)))"

text \<open>The three stores at index \<open>i\<close>, which is within the arrays inside the loop.\<close>

definition store :: "nat \<Rightarrow> 'g chain \<Rightarrow> 'g chain" where
  "store i st =
     st\<lparr>mu_samples := (mu_samples st)[i := mu st],
        sigma2_samples := (sigma2_samples st)[i := sigma2 st],
        sharpe_samples := (sharpe_samples st)[i := fdiv (mu st) (fsqrt (sigma2 st))]\<rparr>"

text \<open>The body of \<^verbatim>\<open>for i in range(n_iter)\<close>.\<close>

definition gibbs_iter ::
  "'g sampler \<Rightarrow> hyper \<Rightarrow> fl list \<Rightarrow> nat \<Rightarrow> 'g chain \<Rightarrow> error + 'g chain" where
  "gibbs_iter P hp returns i st =
     (case update_lambdas P hp returns st of
        Inl e \<Rightarrow> Inl e
      | Inr st1 \<Rightarrow>
          (case update_mu P hp returns st1 of
             Inl e \<Rightarrow> Inl e
           | Inr st2 \<Rightarrow>
               (case update_sigma2 P hp returns st2 of
                  Inl e \<Rightarrow> Inl e
                | Inr st3 \<Rightarrow> Inr (store i st3))))"

text \<open>The loop over the indices of \<^verbatim>\<open>range(n_iter)\<close>; an exception ends it.\<close>

fun gibbs_loop ::
  "'g sampler \<Rightarrow> hyper \<Rightarrow> fl list \<Rightarrow> nat list \<Rightarrow> 'g chain \<Rightarrow> error + 'g chain" where
  "gibbs_loop P hp returns [] st = Inr st"
| "gibbs_loop P hp returns (i # is) st =
     (case gibbs_iter P hp returns i st of
        Inl e \<Rightarrow> Inl e
      | Inr st' \<Rightarrow> gibbs_loop P hp returns is st')"

text \<open>
  The state before the first iteration, once the generator is seeded: the initial mean,
  variance and latent values, then the three arrays of \<^verbatim>\<open>np.zeros(n_iter)\<close>, which
  raises for a negative length.
\<close>

definition gibbs_init :: "hyper \<Rightarrow> fl list \<Rightarrow> 'g \<Rightarrow> error + 'g chain" where
  "gibbs_init hp returns g =
     (let n = length returns;
          mean = np_mean returns;
          var = np_var_ddof1 returns;
          ones = np_ones n
      in case np_zeros (n_iter hp) of
           Inl e \<Rightarrow> Inl e
         | Inr zs \<Rightarrow>
             Inr \<lparr>mu = mean, sigma2 = var, lambdas = ones,
                  mu_samples = zs, sigma2_samples = zs, sharpe_samples = zs, rng = g\<rparr>)"

text \<open>The arrays after the loop: the full chain, before the burn-in is cut off.\<close>

definition gibbs_chain ::
  "'g sampler \<Rightarrow> fl list \<Rightarrow> hyper \<Rightarrow> 'g \<Rightarrow> error + 'g chain" where
  "gibbs_chain P returns hp g0 =
     (case np_random_seed P (seed hp) g0 of
        Inl e \<Rightarrow> Inl e
      | Inr g \<Rightarrow>
          (case gibbs_init hp returns g of
             Inl e \<Rightarrow> Inl e
           | Inr st0 \<Rightarrow> gibbs_loop P hp returns [0..<nat (n_iter hp)] st0))"

text \<open>
  The function: the three arrays from index \<open>burn_in\<close> on, and the generator state it
  leaves behind. \<open>g0\<close> is the state of the global generator when the function is called.
\<close>

definition gibbs_sharpe_student ::
  "'g sampler \<Rightarrow> fl list \<Rightarrow> hyper \<Rightarrow> 'g \<Rightarrow> error + ((fl list \<times> fl list \<times> fl list) \<times> 'g)" where
  "gibbs_sharpe_student P returns hp g0 =
     (case gibbs_chain P returns hp g0 of
        Inl e \<Rightarrow> Inl e
      | Inr st \<Rightarrow>
          Inr ((py_slice_from (mu_samples st) (burn_in hp),
                py_slice_from (sigma2_samples st) (burn_in hp),
                py_slice_from (sharpe_samples st) (burn_in hp)), rng st))"

text \<open>The chain state after the first \<open>k\<close> iterations of a run.\<close>

definition chain_state ::
  "'g sampler \<Rightarrow> fl list \<Rightarrow> hyper \<Rightarrow> 'g \<Rightarrow> nat \<Rightarrow> error + 'g chain" where
  "chain_state P returns hp g0 k =
     (case np_random_seed P (seed hp) g0 of
        Inl e \<Rightarrow> Inl e
      | Inr g \<Rightarrow>
          (case gibbs_init hp returns g of
             Inl e \<Rightarrow> Inl e
           | Inr st0 \<Rightarrow> gibbs_loop P hp returns [0..<k] st0))"

section \<open>Comparisons and a concrete sampling facility\<close>

text \<open>Comparisons with zero as IEEE has them: every comparison with NaN is false.\<close>

fun fpos :: "fl \<Rightarrow> bool" where
  "fpos (Fin a) = (0 < a)"
| "fpos PInf = True"
| "fpos _ = False"

fun fnonneg :: "fl \<Rightarrow> bool" where
  "fnonneg (Fin a) = (0 \<le> a)"
| "fnonneg PInf = True"
| "fnonneg _ = False"

fun fnegative :: "fl \<Rightarrow> bool" where
  "fnegative (Fin a) = (a < 0)"
| "fnegative NInf = True"
| "fnegative _ = False"

fun is_fin :: "fl \<Rightarrow> bool" where
  "is_fin (Fin a) = True"
| "is_fin _ = False"

fun fin_pos :: "fl \<Rightarrow> bool" where
  "fin_pos (Fin a) = (0 < a)"
| "fin_pos _ = False"

fun the_fin :: "fl \<Rightarrow> real" where
  "the_fin (Fin a) = a"
| "the_fin _ = 0"

text \<open>
  A facility to run the function on concrete inputs. Its generator state counts the
  scalar draws since the seeding, and every draw is the centre of its distribution: the
  mean \<open>a * scale\<close> of the Gamma, the location of the Normal, the mode
  \<open>scale / (a + 1)\<close> of the Inverse-Gamma. The parameter checks are those of the library
  routines: numpy's seed is within 32 bits, scipy's \<^verbatim>\<open>rvs\<close> wants \<open>a > 0\<close> and
  \<open>scale \<ge> 0\<close>, numpy's normal refuses a negative scale.
\<close>

definition det_sampler :: "nat sampler" where
  "det_sampler =
     \<lparr>np_random_seed = (\<lambda>s g. if 0 \<le> s \<and> s < 2 ^ 32 then Inr 0 else Inl ValueError),
      gamma_rvs = (\<lambda>a scale g.
         if fpos a \<and> list_all fnonneg scale
         then Inr (map (fmul a) scale, g + length scale) else Inl ValueError),
      np_random_normal = (\<lambda>loc scale g.
         if fnegative scale then Inl ValueError
         else Inr (fadd loc (fmul scale (Fin 0)), g + 1)),
      invgamma_rvs = (\<lambda>a scale g.
         if fpos a \<and> fnonneg scale
         then Inr (fdiv scale (fadd a (Fin 1)), g + 1) else Inl ValueError)\<rparr>"

section \<open>What the sampling facility is assumed to do\<close>

text \<open>
  Reseeding replaces the generator state: what \<^verbatim>\<open>np.random.seed\<close> returns does not
  depend on the state before.
\<close>

definition seed_resets :: "'g sampler \<Rightarrow> bool" where
  "seed_resets P \<longleftrightarrow> (\<forall>s g g'. np_random_seed P s g = np_random_seed P s g')"

text \<open>
  A Gamma call returns an array of the shape of its scale: one draw per entry.
\<close>

definition one_draw_per_scale :: "'g sampler \<Rightarrow> bool" where
  "one_draw_per_scale P \<longleftrightarrow>
     (\<forall>a scale g xs g'. gamma_rvs P a scale g = Inr (xs, g') \<longrightarrow> length xs = length scale)"

text \<open>
  Every Gamma draw and every Inverse-Gamma draw is strictly positive, as a draw from a
  distribution with strictly positive support is.
\<close>

definition positive_draws :: "'g sampler \<Rightarrow> bool" where
  "positive_draws P \<longleftrightarrow>
     (\<forall>a scale g xs g'. gamma_rvs P a scale g = Inr (xs, g') \<longrightarrow> list_all fpos xs) \<and>
     (\<forall>a scale g x g'. invgamma_rvs P a scale g = Inr (x, g') \<longrightarrow> fpos x)"

text \<open>scipy's \<^verbatim>\<open>rvs\<close> refuses a scale that is NaN (\<open>scale \<ge> 0\<close> is false for it).\<close>

definition rejects_nan_scale :: "'g sampler \<Rightarrow> bool" where
  "rejects_nan_scale P \<longleftrightarrow>
     (\<forall>a scale g. NaN \<in> set scale \<longrightarrow> gamma_rvs P a scale g = Inl ValueError)"

text \<open>The preconditions the specification puts on the hyperparameters and the data.\<close>

definition valid_hyper :: "hyper \<Rightarrow> bool" where
  "valid_hyper hp \<longleftrightarrow>
     fin_pos (nu hp) \<and> is_fin (mu0 hp) \<and> fin_pos (tau2 hp) \<and> fin_pos (a0 hp) \<and>
     fin_pos (b0 hp)"

definition valid_returns :: "fl list \<Rightarrow> bool" where
  "valid_returns returns \<longleftrightarrow> list_all is_fin returns \<and> 2 \<le> length returns"

section \<open>Facilities with positive draws, and the errors of a facility\<close>

text \<open>
  A facility restricted to positive draws: a Gamma or Inverse-Gamma call of \<open>P\<close> whose
  result is not strictly positive is refused.
\<close>

definition only_positive :: "'g sampler \<Rightarrow> 'g sampler" where
  "only_positive P =
     P\<lparr>gamma_rvs := (\<lambda>a scale g.
          case gamma_rvs P a scale g of
            Inl e \<Rightarrow> Inl e
          | Inr (xs, g') \<Rightarrow> if list_all fpos xs then Inr (xs, g') else Inl ValueError),
       invgamma_rvs := (\<lambda>a scale g.
          case invgamma_rvs P a scale g of
            Inl e \<Rightarrow> Inl e
          | Inr (x, g') \<Rightarrow> if fpos x then Inr (x, g') else Inl ValueError)\<rparr>"


section \<open>A facility that logs its draws\<close>

datatype draw = GammaDraws nat | NormalDraw | InvGammaDraw


definition with_log :: "'g chain \<Rightarrow> draw list \<Rightarrow> ('g \<times> draw list) chain" where
  "with_log st l =
     \<lparr>mu = mu st, sigma2 = sigma2 st, lambdas = lambdas st, mu_samples = mu_samples st,
      sigma2_samples = sigma2_samples st, sharpe_samples = sharpe_samples st,
      rng = (rng st, l)\<rparr>"

section \<open>The update cycle in the words of the specification\<close>

text \<open>
  The formulas of the specification for one cycle, in the arithmetic of the program: the
  shape and, for an observation \<open>x\<close>, the scale of the latent draw; the pooled variance and
  mean of the mean update; the shape and scale of the variance update.
\<close>

definition spec_gamma_shape :: "fl \<Rightarrow> fl" where
  "spec_gamma_shape v = fdiv (fadd v (Fin 1)) (Fin 2)"

definition spec_gamma_scale :: "fl \<Rightarrow> fl \<Rightarrow> fl \<Rightarrow> fl \<Rightarrow> fl" where
  "spec_gamma_scale v s m x = fdiv (Fin 2) (fadd v (fdiv (fsq (fsub x m)) s))"

definition spec_tau2_n :: "fl \<Rightarrow> fl \<Rightarrow> fl list \<Rightarrow> fl" where
  "spec_tau2_n t s ls = fdiv (Fin 1) (fadd (fdiv (Fin 1) t) (fdiv (np_sum ls) s))"

definition spec_mu_n :: "fl \<Rightarrow> fl \<Rightarrow> fl \<Rightarrow> fl list \<Rightarrow> fl list \<Rightarrow> fl" where
  "spec_mu_n m0 t s ls xs =
     fmul (spec_tau2_n t s ls) (fadd (fdiv m0 t) (fdiv (np_sum (map2 fmul ls xs)) s))"

definition spec_a_n :: "fl \<Rightarrow> nat \<Rightarrow> fl" where
  "spec_a_n a n = fadd a (fdiv (Fin (real n)) (Fin 2))"

definition spec_b_n :: "fl \<Rightarrow> fl list \<Rightarrow> fl list \<Rightarrow> fl \<Rightarrow> fl" where
  "spec_b_n b ls xs m =
     fadd b (fmul (Fin 0.5) (np_sum (map2 (\<lambda>l x. fmul l (fsq (fsub x m))) ls xs)))"

text \<open>
  One cycle from \<open>st\<close> to \<open>st'\<close> as the specification orders it: the latent draw from
  the mean and variance of \<open>st\<close>, then the mean draw from the new latent values and the
  variance of \<open>st\<close>, then the variance draw from the new latent values and the new mean,
  the generator going from one draw to the next.
\<close>

definition spec_cycle :: "'g sampler \<Rightarrow> hyper \<Rightarrow> fl list \<Rightarrow> 'g chain \<Rightarrow> 'g chain \<Rightarrow> bool" where
  "spec_cycle P hp returns st st' \<longleftrightarrow>
     (\<exists>g1 g2.
        gamma_rvs P (spec_gamma_shape (nu hp))
          (map (spec_gamma_scale (nu hp) (sigma2 st) (mu st)) returns) (rng st)
          = Inr (lambdas st', g1) \<and>
        np_random_normal P (spec_mu_n (mu0 hp) (tau2 hp) (sigma2 st) (lambdas st') returns)
          (fsqrt (spec_tau2_n (tau2 hp) (sigma2 st) (lambdas st'))) g1
          = Inr (mu st', g2) \<and>
        invgamma_rvs P (spec_a_n (a0 hp) (length returns))
          (spec_b_n (b0 hp) (lambdas st') returns (mu st')) g2
          = Inr (sigma2 st', rng st'))"

text \<open>
  The sample mean and the unbiased sample variance of the specification, over the reals.
\<close>

definition spec_mean :: "real list \<Rightarrow> real" where
  "spec_mean xs = sum_list xs / real (length xs)"

definition spec_variance :: "real list \<Rightarrow> real" where
  "spec_variance xs =
     sum_list (map (\<lambda>x. (x - spec_mean xs)\<^sup>2) xs) / (real (length xs) - 1)"

text \<open>The degenerate data: every observation equals the first.\<close>

definition all_equal :: "fl list \<Rightarrow> bool" where
  "all_equal xs \<longleftrightarrow> (\<forall>x\<in>set xs. x = hd xs)"

section \<open>A small run\<close>

text \<open>Two observations and two iterations, the second of them returned.\<close>

definition demo_hyper :: hyper where
  "demo_hyper =
     \<lparr>nu = Fin 1, n_iter = 2, burn_in = 1, mu0 = Fin 0, tau2 = Fin 1,
      a0 = Fin 1, b0 = Fin 1, seed = 42\<rparr>"

definition demo_returns :: "fl list" where
  "demo_returns = [Fin 0, Fin 2]"

section \<open>The loop body and the arrays\<close>

lemmas gibbs_eval =
  gibbs_sharpe_student_def gibbs_chain_def gibbs_init_def det_sampler_def
  np_zeros_def np_mean_def np_var_ddof1_def np_sum_def np_ones_def fsub_def fsq_def
  gibbs_iter_def update_lambdas_def update_mu_def update_sigma2_def store_def
  py_truediv_def np_multiply_def py_slice_from_def upt_rec Let_def

lemma update_lambdas_keeps:
  "update_lambdas P hp rs st = Inr st' \<Longrightarrow>
   mu_samples st' = mu_samples st \<and> sigma2_samples st' = sigma2_samples st \<and>
   sharpe_samples st' = sharpe_samples st \<and> mu st' = mu st \<and> sigma2 st' = sigma2 st"
  by (auto simp: update_lambdas_def Let_def split: sum.splits prod.splits)

lemma update_mu_keeps:
  "update_mu P hp rs st = Inr st' \<Longrightarrow>
   mu_samples st' = mu_samples st \<and> sigma2_samples st' = sigma2_samples st \<and>
   sharpe_samples st' = sharpe_samples st \<and> lambdas st' = lambdas st \<and>
   sigma2 st' = sigma2 st"
  by (auto simp: update_mu_def Let_def split: sum.splits prod.splits)

lemma update_sigma2_keeps:
  "update_sigma2 P hp rs st = Inr st' \<Longrightarrow>
   mu_samples st' = mu_samples st \<and> sigma2_samples st' = sigma2_samples st \<and>
   sharpe_samples st' = sharpe_samples st \<and> lambdas st' = lambdas st \<and> mu st' = mu st"
  by (auto simp: update_sigma2_def Let_def split: sum.splits prod.splits)

lemma gibbs_iter_Inr:
  "gibbs_iter P hp rs i st = Inr st' \<Longrightarrow>
   \<exists>st1 st2 st3. update_lambdas P hp rs st = Inr st1 \<and> update_mu P hp rs st1 = Inr st2 \<and>
     update_sigma2 P hp rs st2 = Inr st3 \<and> st' = store i st3"
  by (auto simp: gibbs_iter_def split: sum.splits)

lemma gibbs_iter_arrays:
  assumes "gibbs_iter P hp rs i st = Inr st'"
  shows "mu_samples st' = (mu_samples st)[i := mu st']"
    and "sigma2_samples st' = (sigma2_samples st)[i := sigma2 st']"
    and "sharpe_samples st' = (sharpe_samples st)[i := fdiv (mu st') (fsqrt (sigma2 st'))]"
  using gibbs_iter_Inr[OF assms] update_lambdas_keeps update_mu_keeps update_sigma2_keeps
  by (fastforce simp: store_def)+

lemma gibbs_loop_append:
  "gibbs_loop P hp rs (xs @ ys) st =
     (case gibbs_loop P hp rs xs st of Inl e \<Rightarrow> Inl e | Inr st' \<Rightarrow> gibbs_loop P hp rs ys st')"
  by (induction xs arbitrary: st) (auto split: sum.splits)

lemma gibbs_loop_Cons_Inr:
  "gibbs_loop P hp rs (i # is) st = Inr st' \<Longrightarrow>
   \<exists>st1. gibbs_iter P hp rs i st = Inr st1 \<and> gibbs_loop P hp rs is st1 = Inr st'"
  by (auto split: sum.splits)

lemma gibbs_loop_lengths:
  "gibbs_loop P hp rs is st = Inr st' \<Longrightarrow>
   length (mu_samples st') = length (mu_samples st) \<and>
   length (sigma2_samples st') = length (sigma2_samples st) \<and>
   length (sharpe_samples st') = length (sharpe_samples st)"
proof (induction "is" arbitrary: st)
  case Nil
  then show ?case by simp
next
  case (Cons i "is")
  from gibbs_loop_Cons_Inr[OF Cons.prems] obtain st1
    where a: "gibbs_iter P hp rs i st = Inr st1"
      and b: "gibbs_loop P hp rs is st1 = Inr st'"
    by blast
  from gibbs_iter_arrays[OF a] Cons.IH[OF b] show ?case by simp
qed

lemma gibbs_loop_untouched:
  "gibbs_loop P hp rs is st = Inr st' \<Longrightarrow> j \<notin> set is \<Longrightarrow>
   mu_samples st' ! j = mu_samples st ! j \<and>
   sigma2_samples st' ! j = sigma2_samples st ! j \<and>
   sharpe_samples st' ! j = sharpe_samples st ! j"
proof (induction "is" arbitrary: st)
  case Nil
  then show ?case by simp
next
  case (Cons i "is")
  from gibbs_loop_Cons_Inr[OF Cons.prems(1)] obtain st1
    where a: "gibbs_iter P hp rs i st = Inr st1"
      and b: "gibbs_loop P hp rs is st1 = Inr st'"
    by blast
  from Cons.prems have "j \<noteq> i" "j \<notin> set is" by auto
  with gibbs_iter_arrays[OF a] Cons.IH[OF b] show ?case by simp
qed

lemma gibbs_chain_Inr:
  "gibbs_chain P rs hp g0 = Inr st \<Longrightarrow>
   \<exists>g st0. np_random_seed P (seed hp) g0 = Inr g \<and> gibbs_init hp rs g = Inr st0 \<and>
     gibbs_loop P hp rs [0..<nat (n_iter hp)] st0 = Inr st"
  by (auto simp: gibbs_chain_def split: sum.splits)

lemma gibbs_init_Inr:
  "gibbs_init hp rs g = Inr st0 \<Longrightarrow>
   0 \<le> n_iter hp \<and>
   st0 = \<lparr>mu = np_mean rs, sigma2 = np_var_ddof1 rs, lambdas = np_ones (length rs),
          mu_samples = replicate (nat (n_iter hp)) (Fin 0),
          sigma2_samples = replicate (nat (n_iter hp)) (Fin 0),
          sharpe_samples = replicate (nat (n_iter hp)) (Fin 0), rng = g\<rparr>"
  by (auto simp: gibbs_init_def np_zeros_def Let_def split: if_splits)

lemma gibbs_chain_lengths:
  assumes "gibbs_chain P rs hp g0 = Inr st"
  shows "length (mu_samples st) = nat (n_iter hp)"
    and "length (sigma2_samples st) = nat (n_iter hp)"
    and "length (sharpe_samples st) = nat (n_iter hp)"
proof -
  from gibbs_chain_Inr[OF assms] obtain g st0
    where i: "gibbs_init hp rs g = Inr st0"
      and l: "gibbs_loop P hp rs [0..<nat (n_iter hp)] st0 = Inr st"
    by blast
  from gibbs_init_Inr[OF i] gibbs_loop_lengths[OF l]
  show "length (mu_samples st) = nat (n_iter hp)"
    and "length (sigma2_samples st) = nat (n_iter hp)"
    and "length (sharpe_samples st) = nat (n_iter hp)"
    by simp_all
qed

lemma gibbs_sharpe_student_Inr:
  "gibbs_sharpe_student P rs hp g0 = Inr ((ms, ss, hs), g) \<Longrightarrow>
   \<exists>st. gibbs_chain P rs hp g0 = Inr st \<and> g = rng st \<and>
     ms = py_slice_from (mu_samples st) (burn_in hp) \<and>
     ss = py_slice_from (sigma2_samples st) (burn_in hp) \<and>
     hs = py_slice_from (sharpe_samples st) (burn_in hp)"
  by (auto simp: gibbs_sharpe_student_def split: sum.splits)

section \<open>Finite values\<close>

lemma is_fin_conv: "is_fin x \<longleftrightarrow> (\<exists>a. x = Fin a)"
  by (cases x) auto

lemma Fin_the_fin: "is_fin x \<Longrightarrow> Fin (the_fin x) = x"
  by (cases x) auto

lemma map_Fin_the_fin: "list_all is_fin xs \<Longrightarrow> map Fin (map the_fin xs) = xs"
  by (induction xs) (auto simp: Fin_the_fin)

lemma foldl_fadd_Fin: "foldl fadd (Fin a) (map Fin ys) = Fin (a + sum_list ys)"
  by (induction ys arbitrary: a) (auto simp: add.assoc)

lemma np_sum_Fin: "np_sum (map Fin ys) = Fin (sum_list ys)"
  by (simp add: np_sum_def foldl_fadd_Fin)


lemma gibbs_loop_records:
  assumes run: "gibbs_loop P hp rs [0..<n] st0 = Inr st" and k: "k < n"
    and len: "k < length (mu_samples st0)" "k < length (sigma2_samples st0)"
      "k < length (sharpe_samples st0)"
  shows "\<exists>stk. gibbs_loop P hp rs [0..<Suc k] st0 = Inr stk \<and>
           mu_samples st ! k = mu stk \<and> sigma2_samples st ! k = sigma2 stk \<and>
           sharpe_samples st ! k = fdiv (mu stk) (fsqrt (sigma2 stk))"
proof -
  from k have "[0..<n] = [0..<Suc k] @ [Suc k..<n]"
    by (metis Suc_leI le0 upt_add_eq_append le_add_diff_inverse)
  with run obtain stk where a: "gibbs_loop P hp rs [0..<Suc k] st0 = Inr stk"
    and b: "gibbs_loop P hp rs [Suc k..<n] stk = Inr st"
    by (auto simp: gibbs_loop_append split: sum.splits simp del: upt_Suc)
  from a obtain sta where c: "gibbs_loop P hp rs [0..<k] st0 = Inr sta"
    and d: "gibbs_iter P hp rs k sta = Inr stk"
    by (auto simp: gibbs_loop_append split: sum.splits)
  from gibbs_loop_lengths[OF c] len
  have l: "k < length (mu_samples sta)" "k < length (sigma2_samples sta)"
    "k < length (sharpe_samples sta)" by simp_all
  from gibbs_iter_arrays[OF d] l
  have e: "mu_samples stk ! k = mu stk" "sigma2_samples stk ! k = sigma2 stk"
    "sharpe_samples stk ! k = fdiv (mu stk) (fsqrt (sigma2 stk))" by simp_all
  have "k \<notin> set [Suc k..<n]" by simp
  from gibbs_loop_untouched[OF b this] e a show ?thesis by simp
qed

lemma gibbs_chain_records:
  assumes "gibbs_chain P rs hp g0 = Inr st" and "k < nat (n_iter hp)"
  shows "\<exists>stk. chain_state P rs hp g0 (Suc k) = Inr stk \<and>
           mu_samples st ! k = mu stk \<and> sigma2_samples st ! k = sigma2 stk \<and>
           sharpe_samples st ! k = fdiv (mu stk) (fsqrt (sigma2 stk))"
proof -
  from gibbs_chain_Inr[OF assms(1)] obtain g st0
    where s: "np_random_seed P (seed hp) g0 = Inr g"
      and i: "gibbs_init hp rs g = Inr st0"
      and l: "gibbs_loop P hp rs [0..<nat (n_iter hp)] st0 = Inr st"
    by blast
  from gibbs_init_Inr[OF i] assms(2)
  have "k < length (mu_samples st0)" "k < length (sigma2_samples st0)"
    "k < length (sharpe_samples st0)" by simp_all
  from gibbs_loop_records[OF l assms(2) this] show ?thesis
    by (simp add: chain_state_def s i)
qed

lemma py_slice_from_drop: "\<exists>d. \<forall>xs::fl list. length xs = n \<longrightarrow> py_slice_from xs b = drop d xs"
  by (auto simp: py_slice_from_def)

lemma update_lambdas_burn_in:
  "update_lambdas P (hp\<lparr>burn_in := b\<rparr>) rs st = update_lambdas P hp rs st"
  by (simp add: update_lambdas_def)

lemma update_mu_burn_in:
  "update_mu P (hp\<lparr>burn_in := b\<rparr>) rs st = update_mu P hp rs st"
  by (simp add: update_mu_def Let_def split: sum.splits)

lemma update_sigma2_burn_in:
  "update_sigma2 P (hp\<lparr>burn_in := b\<rparr>) rs st = update_sigma2 P hp rs st"
  by (simp add: update_sigma2_def Let_def split: sum.splits)

lemma gibbs_iter_burn_in:
  "gibbs_iter P (hp\<lparr>burn_in := b\<rparr>) rs i st = gibbs_iter P hp rs i st"
  by (simp add: gibbs_iter_def update_lambdas_burn_in update_mu_burn_in update_sigma2_burn_in
      split: sum.splits)

lemma gibbs_loop_burn_in:
  "gibbs_loop P (hp\<lparr>burn_in := b\<rparr>) rs is st = gibbs_loop P hp rs is st"
  by (induction "is" arbitrary: st) (simp_all add: gibbs_iter_burn_in split: sum.splits)

lemma gibbs_chain_burn_in:
  "gibbs_chain P rs (hp\<lparr>burn_in := b\<rparr>) g0 = gibbs_chain P rs hp g0"
  by (simp add: gibbs_chain_def gibbs_init_def gibbs_loop_burn_in Let_def split: sum.splits)

lemma chain_state_burn_in:
  "chain_state P rs (hp\<lparr>burn_in := b\<rparr>) g0 k = chain_state P rs hp g0 k"
  by (simp add: chain_state_def gibbs_init_def gibbs_loop_burn_in Let_def split: sum.splits)

lemma chain_state_Suc:
  "chain_state P rs hp g0 (Suc k) =
     (case chain_state P rs hp g0 k of
        Inl e \<Rightarrow> Inl e
      | Inr st \<Rightarrow> gibbs_iter P hp rs k st)"
  by (auto simp: chain_state_def gibbs_loop_append split: sum.splits)

lemma chain_state_0:
  "chain_state P rs hp g0 0 =
     (case np_random_seed P (seed hp) g0 of Inl e \<Rightarrow> Inl e | Inr g \<Rightarrow> gibbs_init hp rs g)"
  by (auto simp: chain_state_def split: sum.splits)

section \<open>The cycle, one draw after the other\<close>

lemma update_lambdas_Inr:
  assumes "update_lambdas P hp rs st = Inr st'"
  shows "\<exists>ls g. gamma_rvs P (spec_gamma_shape (nu hp))
                  (map (spec_gamma_scale (nu hp) (sigma2 st) (mu st)) rs) (rng st) = Inr (ls, g) \<and>
               st' = st\<lparr>lambdas := ls, rng := g\<rparr>"
proof -
  have "map (\<lambda>r. fdiv (Fin 2) (fadd (nu hp) (fdiv (fsq r) (sigma2 st))))
          (map (\<lambda>r. fsub r (mu st)) rs)
        = map (spec_gamma_scale (nu hp) (sigma2 st) (mu st)) rs"
    by (simp add: spec_gamma_scale_def comp_def)
  with assms show ?thesis
    by (auto simp: update_lambdas_def Let_def spec_gamma_shape_def
        split: sum.splits prod.splits simp del: map_map)
qed

lemma np_multiply_same_length:
  "length xs = length ys \<Longrightarrow> np_multiply xs ys = Inr (map2 fmul xs ys)"
  by (simp add: np_multiply_def)

lemma py_truediv_Inr: "py_truediv a b = Inr q \<Longrightarrow> q = fdiv a b"
  by (simp add: py_truediv_def split: if_splits)

lemma update_mu_Inr:
  assumes "update_mu P hp rs st = Inr st'" and "length (lambdas st) = length rs"
  shows "\<exists>m g. np_random_normal P (spec_mu_n (mu0 hp) (tau2 hp) (sigma2 st) (lambdas st) rs)
                 (fsqrt (spec_tau2_n (tau2 hp) (sigma2 st) (lambdas st))) (rng st) = Inr (m, g) \<and>
               st' = st\<lparr>mu := m, rng := g\<rparr>"
  using assms
  by (auto simp: update_mu_def Let_def spec_mu_n_def spec_tau2_n_def np_multiply_same_length
      dest!: py_truediv_Inr split: sum.splits prod.splits)

lemma map2_weighted_sq:
  "map2 fmul ls (map (\<lambda>r. fsq (fsub r m)) xs) = map2 (\<lambda>l x. fmul l (fsq (fsub x m))) ls xs"
  by (induction ls arbitrary: xs) (auto split: list.splits simp: zip_Cons1)

lemma update_sigma2_Inr:
  assumes "update_sigma2 P hp rs st = Inr st'" and "length (lambdas st) = length rs"
  shows "\<exists>s g. invgamma_rvs P (spec_a_n (a0 hp) (length rs))
                 (spec_b_n (b0 hp) (lambdas st) rs (mu st)) (rng st) = Inr (s, g) \<and>
               st' = st\<lparr>sigma2 := s, rng := g\<rparr>"
  using assms
  by (auto simp: update_sigma2_def Let_def spec_a_n_def spec_b_n_def np_multiply_same_length
      map2_weighted_sq split: sum.splits prod.splits)


lemma gibbs_iter_spec_cycle:
  assumes op: "one_draw_per_scale P" and it: "gibbs_iter P hp rs i st = Inr st'"
  shows "spec_cycle P hp rs st st'" and "length (lambdas st') = length rs"
proof -
  from gibbs_iter_Inr[OF it] obtain st1 st2 st3
    where u1: "update_lambdas P hp rs st = Inr st1" and u2: "update_mu P hp rs st1 = Inr st2"
      and u3: "update_sigma2 P hp rs st2 = Inr st3" and s: "st' = store i st3"
    by blast
  from update_lambdas_Inr[OF u1] obtain ls g1
    where d1: "gamma_rvs P (spec_gamma_shape (nu hp))
                 (map (spec_gamma_scale (nu hp) (sigma2 st) (mu st)) rs) (rng st) = Inr (ls, g1)"
      and e1: "st1 = st\<lparr>lambdas := ls, rng := g1\<rparr>"
    by blast
  from op d1 have "length ls = length (map (spec_gamma_scale (nu hp) (sigma2 st) (mu st)) rs)"
    unfolding one_draw_per_scale_def by blast
  then have n: "length ls = length rs" by simp
  then have n1: "length (lambdas st1) = length rs" by (simp add: e1)
  from update_mu_Inr[OF u2 n1] obtain m g2
    where d2: "np_random_normal P (spec_mu_n (mu0 hp) (tau2 hp) (sigma2 st1) (lambdas st1) rs)
                 (fsqrt (spec_tau2_n (tau2 hp) (sigma2 st1) (lambdas st1))) (rng st1) = Inr (m, g2)"
      and e2: "st2 = st1\<lparr>mu := m, rng := g2\<rparr>"
    by blast
  from n1 have n2: "length (lambdas st2) = length rs" by (simp add: e2)
  from update_sigma2_Inr[OF u3 n2] obtain s2 g3
    where d3: "invgamma_rvs P (spec_a_n (a0 hp) (length rs))
                 (spec_b_n (b0 hp) (lambdas st2) rs (mu st2)) (rng st2) = Inr (s2, g3)"
      and e3: "st3 = st2\<lparr>sigma2 := s2, rng := g3\<rparr>"
    by blast
  have f: "lambdas st' = ls" "mu st' = m" "sigma2 st' = s2" "rng st' = g3"
    by (simp_all add: s store_def e3 e2 e1)
  show "length (lambdas st') = length rs" by (simp add: f n)
  from d1 d2 d3 show "spec_cycle P hp rs st st'"
    unfolding spec_cycle_def f by (auto simp: e1 e2)
qed

section \<open>Positive draws\<close>

lemma positive_draws_gamma:
  "positive_draws P \<Longrightarrow> gamma_rvs P a scale g = Inr (xs, g') \<Longrightarrow> list_all fpos xs"
  unfolding positive_draws_def by blast

lemma positive_draws_invgamma:
  "positive_draws P \<Longrightarrow> invgamma_rvs P a scale g = Inr (x, g') \<Longrightarrow> fpos x"
  unfolding positive_draws_def by blast

lemma fpos_ones: "list_all fpos (np_ones n)"
  by (simp add: np_ones_def list_all_iff)

lemma update_lambdas_positive:
  "positive_draws P \<Longrightarrow> update_lambdas P hp rs st = Inr st' \<Longrightarrow> list_all fpos (lambdas st')"
  by (auto simp: update_lambdas_def Let_def split: sum.splits prod.splits
      dest: positive_draws_gamma)

lemma update_sigma2_positive:
  "positive_draws P \<Longrightarrow> update_sigma2 P hp rs st = Inr st' \<Longrightarrow> fpos (sigma2 st')"
  by (auto simp: update_sigma2_def Let_def split: sum.splits prod.splits
      dest: positive_draws_invgamma)

lemma gibbs_iter_positive:
  assumes pd: "positive_draws P" and it: "gibbs_iter P hp rs i st = Inr st'"
  shows "list_all fpos (lambdas st')" and "fpos (sigma2 st')"
proof -
  from gibbs_iter_Inr[OF it] obtain st1 st2 st3
    where u1: "update_lambdas P hp rs st = Inr st1" and u2: "update_mu P hp rs st1 = Inr st2"
      and u3: "update_sigma2 P hp rs st2 = Inr st3" and s: "st' = store i st3"
    by blast
  from update_lambdas_positive[OF pd u1] update_mu_keeps[OF u2] update_sigma2_keeps[OF u3]
  show "list_all fpos (lambdas st')" by (simp add: s store_def)
  from update_sigma2_positive[OF pd u3] show "fpos (sigma2 st')" by (simp add: s store_def)
qed

lemma chain_state_positive:
  assumes pd: "positive_draws P" and c: "chain_state P rs hp g0 k = Inr st"
  shows "list_all fpos (lambdas st)"
    and "0 < k \<or> fpos (np_var_ddof1 rs) \<Longrightarrow> fpos (sigma2 st)"
proof -
  have "list_all fpos (lambdas st) \<and> (0 < k \<or> fpos (np_var_ddof1 rs) \<longrightarrow> fpos (sigma2 st))"
  proof (cases k)
    case 0
    with c obtain g where "gibbs_init hp rs g = Inr st"
      by (auto simp: chain_state_0 split: sum.splits)
    from gibbs_init_Inr[OF this] 0 show ?thesis by (simp add: fpos_ones)
  next
    case (Suc j)
    with c obtain stj where "gibbs_iter P hp rs j stj = Inr st"
      by (auto simp: chain_state_Suc split: sum.splits)
    from gibbs_iter_positive[OF pd this] show ?thesis by simp
  qed
  then show "list_all fpos (lambdas st)"
    and "0 < k \<or> fpos (np_var_ddof1 rs) \<Longrightarrow> fpos (sigma2 st)" by auto
qed

section \<open>Where an iteration can fail\<close>









section \<open>The initial mean and variance\<close>

lemma np_mean_Fin: "xs \<noteq> [] \<Longrightarrow> np_mean (map Fin xs) = Fin (spec_mean xs)"
  by (simp add: np_mean_def np_sum_Fin spec_mean_def)

lemma np_var_ddof1_Fin:
  assumes "2 \<le> length xs"
  shows "np_var_ddof1 (map Fin xs) = Fin (spec_variance xs)"
proof -
  from assms have ne: "xs \<noteq> []" by auto
  have d: "real_of_int (max (int (length xs) - 1) 0) = real (length xs) - 1"
    using assms by simp
  have nz: "real (length xs) - 1 \<noteq> 0" using assms by simp
  have "map (\<lambda>r. fsub r (Fin (spec_mean xs))) (map Fin xs)
        = map Fin (map (\<lambda>x. x - spec_mean xs) xs)"
    by (simp add: fsub_def comp_def)
  moreover have "map fsq (map Fin ys) = map Fin (map (\<lambda>y. y\<^sup>2) ys)" for ys
    by (simp add: fsq_def comp_def power2_eq_square)
  ultimately have "np_var_ddof1 (map Fin xs)
      = fdiv (Fin (sum_list (map (\<lambda>y. y\<^sup>2) (map (\<lambda>x. x - spec_mean xs) xs))))
          (Fin (real (length xs) - 1))"
    by (simp add: np_var_ddof1_def Let_def np_mean_Fin[OF ne] np_sum_Fin d del: map_map)
  also have "\<dots> = Fin (spec_variance xs)"
    using nz by (simp add: spec_variance_def comp_def)
  finally show ?thesis .
qed

section \<open>The logging facility follows the run\<close>

lemma with_log_sel [simp]:
  "mu (with_log st l) = mu st" "sigma2 (with_log st l) = sigma2 st"
  "lambdas (with_log st l) = lambdas st" "mu_samples (with_log st l) = mu_samples st"
  "sigma2_samples (with_log st l) = sigma2_samples st"
  "sharpe_samples (with_log st l) = sharpe_samples st" "rng (with_log st l) = (rng st, l)"
  by (simp_all add: with_log_def)








section \<open>The concrete facility and the small run\<close>

lemma det_sampler_seed_resets: "seed_resets det_sampler"
  by (simp add: seed_resets_def det_sampler_def)

lemma fnonneg_NaN: "list_all fnonneg scale \<Longrightarrow> NaN \<notin> set scale"
  by (induction scale) auto

lemma det_sampler_rejects_nan_scale: "rejects_nan_scale det_sampler"
  using fnonneg_NaN by (auto simp: rejects_nan_scale_def det_sampler_def)

lemma det_sampler_one_draw_per_scale: "one_draw_per_scale det_sampler"
  by (auto simp: one_draw_per_scale_def det_sampler_def split: if_splits)

lemma only_positive_positive_draws: "positive_draws (only_positive P)"
  by (auto simp: positive_draws_def only_positive_def split: sum.splits prod.splits if_splits)

lemmas demo_eval = demo_hyper_def demo_returns_def gibbs_eval chain_state_def

section \<open>The update cycle\<close>

text \<open>
  C1. When the function returns, every iteration \<open>k < n_iter\<close> took the state after
  \<open>k\<close> iterations to the state after \<open>k + 1\<close> iterations by the loop body, and the body
  was the cycle of the specification: the latent values drawn from the Gamma with shape
  \<open>(nu + 1) / 2\<close> and scales \<open>2 / (nu + (x - mu)\<^sup>2 / sigma2)\<close> for the mean and
  variance before the iteration; then the mean from the Normal with location \<open>mu_n\<close> and
  scale \<open>sqrt tau2_n\<close>, computed from the latent values just drawn and the variance before
  the iteration; then the variance from the Inverse-Gamma with shape \<open>a0 + n / 2\<close> and
  scale \<open>b0 + 0.5 * \<Sum> lambda (x - mu')\<^sup>2\<close> for the mean just drawn, the generator
  state going from each draw to the next. What the iteration drew is entry \<open>k\<close> of the
  arrays the returned sequences are cut from.
\<close>

theorem update_cycle_order:
  assumes "gibbs_sharpe_student P returns hp g0 = Inr ((ms, ss, hs), g')"
    and "one_draw_per_scale P" and "k < nat (n_iter hp)"
  shows "\<exists>full st st'.
           gibbs_chain P returns hp g0 = Inr full \<and>
           ms = py_slice_from (mu_samples full) (burn_in hp) \<and>
           ss = py_slice_from (sigma2_samples full) (burn_in hp) \<and>
           hs = py_slice_from (sharpe_samples full) (burn_in hp) \<and>
           chain_state P returns hp g0 k = Inr st \<and>
           chain_state P returns hp g0 (Suc k) = Inr st' \<and>
           gibbs_iter P hp returns k st = Inr st' \<and>
           spec_cycle P hp returns st st' \<and>
           mu_samples full ! k = mu st' \<and> sigma2_samples full ! k = sigma2 st' \<and>
           sharpe_samples full ! k = fdiv (mu st') (fsqrt (sigma2 st'))"
proof -
  from assms(1) obtain full
    where c: "gibbs_chain P returns hp g0 = Inr full"
      and o: "ms = py_slice_from (mu_samples full) (burn_in hp)"
             "ss = py_slice_from (sigma2_samples full) (burn_in hp)"
             "hs = py_slice_from (sharpe_samples full) (burn_in hp)"
    by (auto simp: gibbs_sharpe_student_def split: sum.splits)
  from c obtain g st0
    where sd: "np_random_seed P (seed hp) g0 = Inr g" and i: "gibbs_init hp returns g = Inr st0"
      and l: "gibbs_loop P hp returns [0..<nat (n_iter hp)] st0 = Inr full"
    by (auto simp: gibbs_chain_def split: sum.splits)
  from gibbs_init_Inr[OF i] assms(3)
  have "k < length (mu_samples st0)" "k < length (sigma2_samples st0)"
    "k < length (sharpe_samples st0)" by simp_all
  from gibbs_loop_records[OF l assms(3) this] obtain st'
    where r: "gibbs_loop P hp returns [0..<Suc k] st0 = Inr st'"
      "mu_samples full ! k = mu st'" "sigma2_samples full ! k = sigma2 st'"
      "sharpe_samples full ! k = fdiv (mu st') (fsqrt (sigma2 st'))"
    by blast
  from r(1) obtain st
    where p: "gibbs_loop P hp returns [0..<k] st0 = Inr st"
      and it: "gibbs_iter P hp returns k st = Inr st'"
    by (auto simp: gibbs_loop_append split: sum.splits)
  have cs: "chain_state P returns hp g0 k = Inr st" "chain_state P returns hp g0 (Suc k) = Inr st'"
    using p r(1) by (simp_all add: chain_state_def sd i del: upt_Suc)
  from gibbs_iter_spec_cycle(1)[OF assms(2) it] c o cs it r(2-4) show ?thesis by blast
qed

text \<open>
  The second iteration of the small run.
\<close>

theorem update_cycle_order_witness:
  "\<exists>hs g' full st st'.
     gibbs_sharpe_student det_sampler demo_returns demo_hyper (0::nat)
       = Inr (([Fin (922572 / 2258281)], [Fin (9544187531093 / 15299499224883)], hs), g') \<and>
     gibbs_chain det_sampler demo_returns demo_hyper 0 = Inr full \<and>
     chain_state det_sampler demo_returns demo_hyper 0 1 = Inr st \<and>
     chain_state det_sampler demo_returns demo_hyper 0 2 = Inr st' \<and>
     gibbs_iter det_sampler demo_hyper demo_returns 1 st = Inr st' \<and>
     spec_cycle det_sampler demo_hyper demo_returns st st' \<and>
     mu st = Fin (4 / 7) \<and> sigma2 st = Fin (379 / 441) \<and>
     mu_samples full ! 1 = mu st' \<and> sigma2_samples full ! 1 = sigma2 st'"
proof -
  have "\<exists>hs g'. gibbs_sharpe_student det_sampler demo_returns demo_hyper (0::nat)
          = Inr (([Fin (922572 / 2258281)], [Fin (9544187531093 / 15299499224883)], hs), g')"
    by (simp add: demo_eval numeral_2_eq_2)
  then obtain hs g'
    where r: "gibbs_sharpe_student det_sampler demo_returns demo_hyper (0::nat)
                = Inr (([Fin (922572 / 2258281)], [Fin (9544187531093 / 15299499224883)], hs), g')"
    by blast
  have k: "(1::nat) < nat (n_iter demo_hyper)" by (simp add: demo_hyper_def)
  from update_cycle_order[OF r det_sampler_one_draw_per_scale k] obtain full st st'
    where t: "gibbs_chain det_sampler demo_returns demo_hyper 0 = Inr full"
      "chain_state det_sampler demo_returns demo_hyper 0 1 = Inr st"
      "chain_state det_sampler demo_returns demo_hyper 0 (Suc 1) = Inr st'"
      "gibbs_iter det_sampler demo_hyper demo_returns 1 st = Inr st'"
      "spec_cycle det_sampler demo_hyper demo_returns st st'"
      "mu_samples full ! 1 = mu st'" "sigma2_samples full ! 1 = sigma2 st'"
    by blast
  have "chain_state det_sampler demo_returns demo_hyper (0::nat) 1
        = Inr \<lparr>mu = Fin (4 / 7), sigma2 = Fin (379 / 441),
               lambdas = [Fin (4 / 3), Fin (4 / 3)],
               mu_samples = [Fin (4 / 7), Fin 0],
               sigma2_samples = [Fin (379 / 441), Fin 0],
               sharpe_samples = [Fin (4 / (7 * sqrt (379 / 441))), Fin 0],
               rng = 4\<rparr>"
    by (simp add: demo_eval numeral_2_eq_2)
  with t(2) have "mu st = Fin (4 / 7)" "sigma2 st = Fin (379 / 441)" by auto
  with r t show ?thesis by (auto simp: numeral_2_eq_2)
qed

section \<open>Shape of the output\<close>

text \<open>
  C2. Whenever the function returns and \<open>n_iter > 0\<close>, \<open>0 \<le> burn_in < n_iter\<close>, each
  of the three returned sequences has length \<open>n_iter - burn_in\<close>; \<open>burn_in = 0\<close> is
  one of these cases.
\<close>

theorem output_lengths:
  assumes "gibbs_sharpe_student P returns hp g0 = Inr ((ms, ss, hs), g)"
    and "0 < n_iter hp" and "0 \<le> burn_in hp" and "burn_in hp < n_iter hp"
  shows "length ms = nat (n_iter hp - burn_in hp) \<and>
         length ss = nat (n_iter hp - burn_in hp) \<and>
         length hs = nat (n_iter hp - burn_in hp)"
proof -
  from gibbs_sharpe_student_Inr[OF assms(1)] obtain st
    where c: "gibbs_chain P returns hp g0 = Inr st"
      and o: "ms = py_slice_from (mu_samples st) (burn_in hp)"
             "ss = py_slice_from (sigma2_samples st) (burn_in hp)"
             "hs = py_slice_from (sharpe_samples st) (burn_in hp)"
    by blast
  from assms(3,4) have "nat (n_iter hp) - nat (burn_in hp) = nat (n_iter hp - burn_in hp)"
    by linarith
  with o gibbs_chain_lengths[OF c] assms(3) show ?thesis
    by (simp add: py_slice_from_def)
qed

text \<open>
  Three iterations without burn-in return three samples of each kind.
\<close>

theorem output_lengths_witness:
  "\<exists>ms ss hs g.
     gibbs_sharpe_student det_sampler [Fin 0, Fin 2]
       \<lparr>nu = Fin 1, n_iter = 3, burn_in = 0, mu0 = Fin 0, tau2 = Fin 1,
        a0 = Fin 1, b0 = Fin 1, seed = 42\<rparr> (0::nat) = Inr ((ms, ss, hs), g) \<and>
     length ms = 3 \<and> length ss = 3 \<and> length hs = 3"
proof -
  let ?hp = "\<lparr>nu = Fin 1, n_iter = 3, burn_in = 0, mu0 = Fin 0, tau2 = Fin 1,
              a0 = Fin 1, b0 = Fin 1, seed = 42\<rparr>"
  have "\<exists>ms ss hs g. gibbs_sharpe_student det_sampler [Fin 0, Fin 2] ?hp (0::nat)
          = Inr ((ms, ss, hs), g)"
    by (simp add: gibbs_eval)
  then obtain ms ss hs g
    where r: "gibbs_sharpe_student det_sampler [Fin 0, Fin 2] ?hp (0::nat)
                = Inr ((ms, ss, hs), g)"
    by blast
  from output_lengths[OF r] have "length ms = 3 \<and> length ss = 3 \<and> length hs = 3"
    by simp
  with r show ?thesis by blast
qed

section \<open>The Sharpe samples\<close>

text \<open>
  C3. At every index of the returned sequences, the Sharpe sample is the mean sample at
  that index divided by the square root of the variance sample at that index. The values
  are compared as values of the model: the same division and square root applied to the
  recorded numbers, without a tolerance.
\<close>

theorem sharpe_consistent:
  assumes "gibbs_sharpe_student P returns hp g0 = Inr ((ms, ss, hs), g)"
    and "i < length hs"
  shows "hs ! i = fdiv (ms ! i) (fsqrt (ss ! i))"
proof -
  from gibbs_sharpe_student_Inr[OF assms(1)] obtain st
    where c: "gibbs_chain P returns hp g0 = Inr st"
      and o: "ms = py_slice_from (mu_samples st) (burn_in hp)"
             "ss = py_slice_from (sigma2_samples st) (burn_in hp)"
             "hs = py_slice_from (sharpe_samples st) (burn_in hp)"
    by blast
  note len = gibbs_chain_lengths[OF c]
  from py_slice_from_drop[of "nat (n_iter hp)" "burn_in hp"] len o
  obtain d where d: "ms = drop d (mu_samples st)" "ss = drop d (sigma2_samples st)"
    "hs = drop d (sharpe_samples st)" by auto
  from assms(2) d(3) len have k: "d + i < nat (n_iter hp)" by simp
  from gibbs_chain_records[OF c k]
  have "sharpe_samples st ! (d + i)
        = fdiv (mu_samples st ! (d + i)) (fsqrt (sigma2_samples st ! (d + i)))"
    by auto
  with d k len show ?thesis by simp
qed

text \<open>
  The sample the small run returns.
\<close>

theorem sharpe_consistent_witness:
  "\<exists>ms ss hs g.
     gibbs_sharpe_student det_sampler demo_returns demo_hyper (0::nat) = Inr ((ms, ss, hs), g) \<and>
     0 < length hs \<and> hs ! 0 = fdiv (ms ! 0) (fsqrt (ss ! 0))"
proof -
  have "\<exists>m s h g. gibbs_sharpe_student det_sampler demo_returns demo_hyper (0::nat)
          = Inr (([m], [s], [h]), g)"
    by (simp add: demo_eval numeral_2_eq_2)
  then obtain m s h g
    where r: "gibbs_sharpe_student det_sampler demo_returns demo_hyper (0::nat)
                = Inr (([m], [s], [h]), g)"
    by blast
  from sharpe_consistent[OF r, of 0] have "[h] ! 0 = fdiv ([m] ! 0) (fsqrt ([s] ! 0))"
    by simp
  with r show ?thesis by (intro exI[of _ "[m]"] exI[of _ "[s]"] exI[of _ "[h]"] exI[of _ g]) simp
qed

section \<open>Positivity\<close>

text \<open>
  C4. With a facility whose Gamma and Inverse-Gamma draws are strictly positive, every
  latent value is strictly positive in every state of the run, and the variance is
  strictly positive from the first variance update on; before it the variance is the
  computed sample variance, and positive when that is. Within an iteration each update
  leaves the latent values and the variance as they are or replaces them by a positive
  draw. Every returned variance sample is strictly positive.
\<close>

theorem positivity:
  assumes pd: "positive_draws P"
  shows "(\<forall>k st. k \<le> nat (n_iter hp) \<and> chain_state P returns hp g0 k = Inr st \<longrightarrow>
            list_all fpos (lambdas st) \<and>
            (0 < k \<or> fpos (np_var_ddof1 returns) \<longrightarrow> fpos (sigma2 st)) \<and>
            (k = 0 \<longrightarrow> sigma2 st = np_var_ddof1 returns)) \<and>
         (\<forall>st st'. update_lambdas P hp returns st = Inr st' \<longrightarrow>
            list_all fpos (lambdas st') \<and> sigma2 st' = sigma2 st) \<and>
         (\<forall>st st'. update_mu P hp returns st = Inr st' \<longrightarrow>
            lambdas st' = lambdas st \<and> sigma2 st' = sigma2 st) \<and>
         (\<forall>st st'. update_sigma2 P hp returns st = Inr st' \<longrightarrow>
            lambdas st' = lambdas st \<and> fpos (sigma2 st')) \<and>
         (\<forall>ms ss hs g'. gibbs_sharpe_student P returns hp g0 = Inr ((ms, ss, hs), g') \<longrightarrow>
            list_all fpos ss)"
proof (intro conjI allI impI)
  fix k st
  assume h: "k \<le> nat (n_iter hp) \<and> chain_state P returns hp g0 k = Inr st"
  then have c: "chain_state P returns hp g0 k = Inr st" by simp
  from chain_state_positive(1)[OF pd c] show "list_all fpos (lambdas st)" .
  {
    assume "0 < k \<or> fpos (np_var_ddof1 returns)"
    from chain_state_positive(2)[OF pd c this] show "fpos (sigma2 st)" .
  }
  {
    assume "k = 0"
    with c obtain g where "gibbs_init hp returns g = Inr st"
      by (auto simp: chain_state_0 split: sum.splits)
    from gibbs_init_Inr[OF this] show "sigma2 st = np_var_ddof1 returns" by simp
  }
next
  fix st st' :: "'a chain"
  assume u: "update_lambdas P hp returns st = Inr st'"
  from update_lambdas_positive[OF pd u] show "list_all fpos (lambdas st')" .
  from update_lambdas_keeps[OF u] show "sigma2 st' = sigma2 st" by simp
next
  fix st st' :: "'a chain"
  assume u: "update_mu P hp returns st = Inr st'"
  from update_mu_keeps[OF u] show "lambdas st' = lambdas st" "sigma2 st' = sigma2 st"
    by simp_all
next
  fix st st' :: "'a chain"
  assume u: "update_sigma2 P hp returns st = Inr st'"
  from update_sigma2_keeps[OF u] show "lambdas st' = lambdas st" by simp
  from update_sigma2_positive[OF pd u] show "fpos (sigma2 st')" .
next
  fix ms ss hs g'
  assume r: "gibbs_sharpe_student P returns hp g0 = Inr ((ms, ss, hs), g')"
  then obtain full
    where c: "gibbs_chain P returns hp g0 = Inr full"
      and o: "ss = py_slice_from (sigma2_samples full) (burn_in hp)"
    by (auto simp: gibbs_sharpe_student_def split: sum.splits)
  from c obtain g st0
    where sd: "np_random_seed P (seed hp) g0 = Inr g" and i: "gibbs_init hp returns g = Inr st0"
      and l: "gibbs_loop P hp returns [0..<nat (n_iter hp)] st0 = Inr full"
    by (auto simp: gibbs_chain_def split: sum.splits)
  from gibbs_init_Inr[OF i] gibbs_loop_lengths[OF l]
  have len: "length (sigma2_samples full) = nat (n_iter hp)"
    "length (mu_samples st0) = nat (n_iter hp)" "length (sigma2_samples st0) = nat (n_iter hp)"
    "length (sharpe_samples st0) = nat (n_iter hp)" by simp_all
  have all: "fpos x" if "x \<in> set (sigma2_samples full)" for x
  proof -
    from that len(1) obtain j where j: "j < nat (n_iter hp)" "x = sigma2_samples full ! j"
      by (auto simp: in_set_conv_nth)
    from gibbs_loop_records[OF l j(1)] len j(1) obtain stj
      where "gibbs_loop P hp returns [0..<Suc j] st0 = Inr stj" "x = sigma2 stj"
      using j(2) by auto
    then have "chain_state P returns hp g0 (Suc j) = Inr stj"
      by (simp add: chain_state_def sd i del: upt_Suc)
    with chain_state_positive(2)[OF pd this] \<open>x = sigma2 stj\<close> show ?thesis by simp
  qed
  have "set (py_slice_from (sigma2_samples full) (burn_in hp)) \<subseteq> set (sigma2_samples full)"
    by (simp add: py_slice_from_def set_drop_subset)
  with all show "list_all fpos ss" unfolding o by (auto simp: list_all_iff)
qed

text \<open>
  The states before and after the first iteration of the small run, and what it returns.
\<close>

theorem positivity_witness:
  "(\<exists>st. chain_state (only_positive det_sampler) demo_returns demo_hyper (0::nat) 0 = Inr st \<and>
      lambdas st = [Fin 1, Fin 1] \<and> sigma2 st = Fin 2 \<and>
      list_all fpos (lambdas st) \<and> fpos (sigma2 st)) \<and>
   (\<exists>st. chain_state (only_positive det_sampler) demo_returns demo_hyper (0::nat) 1 = Inr st \<and>
      lambdas st = [Fin (4 / 3), Fin (4 / 3)] \<and> sigma2 st = Fin (379 / 441) \<and>
      list_all fpos (lambdas st) \<and> fpos (sigma2 st)) \<and>
   (\<exists>ms hs g'. gibbs_sharpe_student (only_positive det_sampler) demo_returns demo_hyper 0
      = Inr ((ms, [Fin (9544187531093 / 15299499224883)], hs), g') \<and>
      list_all fpos [Fin (9544187531093 / 15299499224883)])"
proof -
  let ?P = "only_positive det_sampler"
  note p = positivity[OF only_positive_positive_draws, of demo_hyper det_sampler demo_returns 0]
  have v: "fpos (np_var_ddof1 demo_returns)"
    by (simp add: demo_eval)
  have "\<exists>st. chain_state ?P demo_returns demo_hyper (0::nat) 0 = Inr st \<and>
          lambdas st = [Fin 1, Fin 1] \<and> sigma2 st = Fin 2"
    by (simp add: demo_eval only_positive_def)
  then obtain st0 where c0: "chain_state ?P demo_returns demo_hyper (0::nat) 0 = Inr st0"
    "lambdas st0 = [Fin 1, Fin 1]" "sigma2 st0 = Fin 2"
    by blast
  have "\<exists>st. chain_state ?P demo_returns demo_hyper (0::nat) 1 = Inr st \<and>
          lambdas st = [Fin (4 / 3), Fin (4 / 3)] \<and> sigma2 st = Fin (379 / 441)"
    by (simp add: demo_eval only_positive_def)
  then obtain st1 where c1: "chain_state ?P demo_returns demo_hyper (0::nat) 1 = Inr st1"
    "lambdas st1 = [Fin (4 / 3), Fin (4 / 3)]" "sigma2 st1 = Fin (379 / 441)"
    by blast
  have "\<exists>ms hs g'. gibbs_sharpe_student ?P demo_returns demo_hyper (0::nat)
          = Inr ((ms, [Fin (9544187531093 / 15299499224883)], hs), g')"
    by (simp add: demo_eval only_positive_def numeral_2_eq_2)
  then obtain ms hs g'
    where r: "gibbs_sharpe_student ?P demo_returns demo_hyper (0::nat)
                = Inr ((ms, [Fin (9544187531093 / 15299499224883)], hs), g')"
    by blast
  have n: "(0::nat) \<le> nat (n_iter demo_hyper)" "(1::nat) \<le> nat (n_iter demo_hyper)"
    by (simp_all add: demo_hyper_def)
  from p c0(1) n(1) v have a: "list_all fpos (lambdas st0) \<and> fpos (sigma2 st0)" by blast
  from p c1(1) n(2) have b: "list_all fpos (lambdas st1) \<and> fpos (sigma2 st1)" by blast
  from p r have c: "list_all fpos [Fin (9544187531093 / 15299499224883)]" by blast
  from a b c c0 c1 r show ?thesis by blast
qed

text \<open>
  Under the preconditions alone the variance is not positive at all times: for two equal
  observations the initial variance is \<open>0\<close>.
\<close>

theorem positivity_counterexample:
  "valid_hyper demo_hyper \<and> valid_returns [Fin 1, Fin 1] \<and>
   map_sum id sigma2 (chain_state det_sampler [Fin 1, Fin 1] demo_hyper (0::nat) 0)
     = Inr (Fin 0) \<and> \<not> fpos (Fin 0)"
  by (simp add: demo_eval valid_hyper_def valid_returns_def)

section \<open>Determinism\<close>

text \<open>
  C5. With a facility whose seeding does not depend on the generator state before, the
  result of the function (the three sequences or the error, and the generator state left
  behind) is the same whatever the generator state at the call: two calls with the same
  observations, hyperparameters and seed return the same.
\<close>

theorem seed_determines_output:
  assumes "seed_resets P"
  shows "gibbs_sharpe_student P returns hp g0 = gibbs_sharpe_student P returns hp g0'"
proof -
  from assms have "np_random_seed P (seed hp) g0 = np_random_seed P (seed hp) g0'"
    by (simp add: seed_resets_def)
  then have "gibbs_chain P returns hp g0 = gibbs_chain P returns hp g0'"
    by (simp add: gibbs_chain_def)
  then show ?thesis by (simp add: gibbs_sharpe_student_def)
qed

text \<open>
  Two calls of the small run from different generator states.
\<close>

theorem seed_determines_output_witness:
  "gibbs_sharpe_student det_sampler demo_returns demo_hyper (0::nat)
   = gibbs_sharpe_student det_sampler demo_returns demo_hyper 7"
  using seed_determines_output[OF det_sampler_seed_resets] .

section \<open>Initialisation\<close>

text \<open>
  C6. For at least two finite observations, the state before the first iteration has the
  sample mean as mean, the unbiased sample variance (divided by \<open>n - 1\<close>) as variance and
  \<open>n\<close> ones as latent values, and the chain is the loop run from this state.
\<close>

theorem initial_state:
  assumes "valid_returns returns"
    and "chain_state P returns hp g0 0 = Inr st0"
  shows "mu st0 = Fin (spec_mean (map the_fin returns)) \<and>
         sigma2 st0 = Fin (spec_variance (map the_fin returns)) \<and>
         lambdas st0 = replicate (length returns) (Fin 1) \<and>
         gibbs_chain P returns hp g0 = gibbs_loop P hp returns [0..<nat (n_iter hp)] st0"
proof -
  define xs where "xs = map the_fin returns"
  from assms(1) have rs: "returns = map Fin xs" and n: "2 \<le> length xs"
    by (simp_all add: xs_def valid_returns_def map_Fin_the_fin del: map_map)
  from n have nn: "xs \<noteq> []" by auto
  from assms(2) obtain g where s: "np_random_seed P (seed hp) g0 = Inr g"
    and i: "gibbs_init hp returns g = Inr st0"
    by (auto simp: chain_state_0 split: sum.splits)
  have "gibbs_chain P returns hp g0 = gibbs_loop P hp returns [0..<nat (n_iter hp)] st0"
    by (simp add: gibbs_chain_def s i)
  with gibbs_init_Inr[OF i] show ?thesis
    unfolding xs_def[symmetric] unfolding rs
    by (simp add: np_mean_Fin[OF nn] np_var_ddof1_Fin[OF n] np_ones_def)
qed

text \<open>
  The observations 1, 2, 6 have mean 3 and unbiased variance 7.
\<close>

theorem initial_state_witness:
  "\<exists>st0. chain_state det_sampler [Fin 1, Fin 2, Fin 6] demo_hyper (0::nat) 0 = Inr st0 \<and>
     mu st0 = Fin 3 \<and> sigma2 st0 = Fin 7 \<and> lambdas st0 = [Fin 1, Fin 1, Fin 1]"
proof -
  have v: "valid_returns [Fin 1, Fin 2, Fin 6]" by (simp add: valid_returns_def)
  have "\<exists>st0. chain_state det_sampler [Fin 1, Fin 2, Fin 6] demo_hyper (0::nat) 0 = Inr st0"
    by (simp add: demo_eval)
  then obtain st0
    where c: "chain_state det_sampler [Fin 1, Fin 2, Fin 6] demo_hyper (0::nat) 0 = Inr st0"
    by blast
  from initial_state[OF v c] have "mu st0 = Fin 3 \<and> sigma2 st0 = Fin 7 \<and>
      lambdas st0 = [Fin 1, Fin 1, Fin 1]"
    by (simp add: spec_mean_def spec_variance_def numeral_3_eq_3)
  with c show ?thesis by blast
qed

section \<open>Burn-in\<close>

text \<open>
  C7. With \<open>0 \<le> burn_in < n_iter\<close>, the returned sequences are the sequences of the
  same call with \<open>burn_in = 0\<close>, which have length \<open>n_iter\<close>, without their first
  \<open>burn_in\<close> entries: entry \<open>j\<close> of each returned sequence is entry \<open>burn_in + j\<close>
  of the full one, and these are the mean, the variance and the Sharpe ratio of the state
  after iteration \<open>burn_in + j\<close>.
\<close>

theorem burn_in_discards_prefix:
  assumes "gibbs_sharpe_student P returns hp g0 = Inr ((ms, ss, hs), g)"
    and "0 \<le> burn_in hp" and "burn_in hp < n_iter hp"
  shows "\<exists>mf sf hf.
           gibbs_sharpe_student P returns (hp\<lparr>burn_in := 0\<rparr>) g0 = Inr ((mf, sf, hf), g) \<and>
           length mf = nat (n_iter hp) \<and> length sf = nat (n_iter hp) \<and>
           length hf = nat (n_iter hp) \<and>
           ms = drop (nat (burn_in hp)) mf \<and> ss = drop (nat (burn_in hp)) sf \<and>
           hs = drop (nat (burn_in hp)) hf \<and>
           (\<forall>j. j < nat (n_iter hp - burn_in hp) \<longrightarrow>
              ms ! j = mf ! (nat (burn_in hp) + j) \<and>
              ss ! j = sf ! (nat (burn_in hp) + j) \<and>
              hs ! j = hf ! (nat (burn_in hp) + j) \<and>
              (\<exists>st. chain_state P returns hp g0 (Suc (nat (burn_in hp) + j)) = Inr st \<and>
                    ms ! j = mu st \<and> ss ! j = sigma2 st \<and>
                    hs ! j = fdiv (mu st) (fsqrt (sigma2 st))))"
proof -
  from gibbs_sharpe_student_Inr[OF assms(1)] obtain st
    where c: "gibbs_chain P returns hp g0 = Inr st" and g: "g = rng st"
      and o: "ms = py_slice_from (mu_samples st) (burn_in hp)"
             "ss = py_slice_from (sigma2_samples st) (burn_in hp)"
             "hs = py_slice_from (sharpe_samples st) (burn_in hp)"
    by blast
  note len = gibbs_chain_lengths[OF c]
  let ?b = "nat (burn_in hp)"
  have full: "gibbs_sharpe_student P returns (hp\<lparr>burn_in := 0\<rparr>) g0
              = Inr ((mu_samples st, sigma2_samples st, sharpe_samples st), g)"
    by (simp add: gibbs_sharpe_student_def gibbs_chain_burn_in c g py_slice_from_def)
  have d: "ms = drop ?b (mu_samples st)" "ss = drop ?b (sigma2_samples st)"
    "hs = drop ?b (sharpe_samples st)"
    using o assms(2) by (simp_all add: py_slice_from_def)
  have idx: "ms ! j = mu_samples st ! (?b + j) \<and> ss ! j = sigma2_samples st ! (?b + j) \<and>
             hs ! j = sharpe_samples st ! (?b + j) \<and>
             (\<exists>st'. chain_state P returns hp g0 (Suc (?b + j)) = Inr st' \<and>
                    ms ! j = mu st' \<and> ss ! j = sigma2 st' \<and>
                    hs ! j = fdiv (mu st') (fsqrt (sigma2 st')))"
    if j: "j < nat (n_iter hp - burn_in hp)" for j
  proof -
    from j assms(2,3) have k: "?b + j < nat (n_iter hp)" by linarith
    then have e: "ms ! j = mu_samples st ! (?b + j)" "ss ! j = sigma2_samples st ! (?b + j)"
      "hs ! j = sharpe_samples st ! (?b + j)"
      using d len by simp_all
    from gibbs_chain_records[OF c k] e show ?thesis by auto
  qed
  from full len d idx show ?thesis by blast
qed

text \<open>
  The small run returns the second entry of its full chain.
\<close>

theorem burn_in_discards_prefix_witness:
  "\<exists>ms ss hs mf sf hf g.
     gibbs_sharpe_student det_sampler demo_returns demo_hyper (0::nat) = Inr ((ms, ss, hs), g) \<and>
     gibbs_sharpe_student det_sampler demo_returns (demo_hyper\<lparr>burn_in := 0\<rparr>) 0
       = Inr ((mf, sf, hf), g) \<and>
     length mf = 2 \<and> ms = drop 1 mf \<and> ss = drop 1 sf \<and> hs = drop 1 hf \<and>
     ms ! 0 = mf ! 1 \<and> ss ! 0 = sf ! 1 \<and> hs ! 0 = hf ! 1"
proof -
  have "\<exists>ms ss hs g. gibbs_sharpe_student det_sampler demo_returns demo_hyper (0::nat)
          = Inr ((ms, ss, hs), g)"
    by (simp add: demo_eval numeral_2_eq_2)
  then obtain ms ss hs g
    where r: "gibbs_sharpe_student det_sampler demo_returns demo_hyper (0::nat)
                = Inr ((ms, ss, hs), g)"
    by blast
  have b: "0 \<le> burn_in demo_hyper" "burn_in demo_hyper < n_iter demo_hyper"
    "nat (burn_in demo_hyper) = 1" "nat (n_iter demo_hyper) = 2"
    "(0::nat) < nat (n_iter demo_hyper - burn_in demo_hyper)"
    by (simp_all add: demo_hyper_def)
  from burn_in_discards_prefix[OF r b(1,2)] b(5) obtain mf sf hf
    where "gibbs_sharpe_student det_sampler demo_returns (demo_hyper\<lparr>burn_in := 0\<rparr>) 0
             = Inr ((mf, sf, hf), g)"
      "length mf = 2" "ms = drop 1 mf" "ss = drop 1 sf" "hs = drop 1 hf"
      "ms ! 0 = mf ! 1" "ss ! 0 = sf ! 1" "hs ! 0 = hf ! 1"
    unfolding b(3,4) by force
  with r show ?thesis by blast
qed

section \<open>Inputs outside the preconditions\<close>

lemma np_var_ddof1_single: "np_var_ddof1 [r] = NaN"
  by (cases r) (simp_all add: np_var_ddof1_def np_mean_def np_sum_def fsub_def fsq_def)

lemma scale_of_NaN_variance:
  "fdiv (Fin 2) (fadd v (fdiv q NaN)) = NaN"
  by (cases v; cases q) simp_all

text \<open>
  C8. Nothing is validated before the loop: with \<open>n_iter = 0\<close> every input that the
  seeding accepts returns three empty sequences. A violated precondition makes the function
  fail where a later operation refuses the value: \<open>tau2 = 0\<close> raises ZeroDivisionError in
  the first mean update (Python's division of \<open>1.0\<close> by the float \<open>tau2\<close>), and a
  single observation gives a NaN variance and NaN scales, which a facility that refuses
  them answers with ValueError in the first latent draw. A burn-in of at least \<open>n_iter\<close>
  makes nothing fail: the slices are empty.
\<close>

theorem no_eager_validation:
  "(np_random_seed P (seed hp) g0 = Inr g \<and> n_iter hp = 0 \<longrightarrow>
      gibbs_sharpe_student P returns hp g0 = Inr (([], [], []), g)) \<and>
   (tau2 hp = Fin 0 \<and> 0 < n_iter hp \<and> chain_state P returns hp g0 0 = Inr st0 \<and>
    update_lambdas P hp returns st0 = Inr st1 \<longrightarrow>
      gibbs_sharpe_student P returns hp g0 = Inl ZeroDivisionError) \<and>
   (rejects_nan_scale P \<and> length returns = 1 \<and> 0 < n_iter hp \<and>
    np_random_seed P (seed hp) g0 = Inr g \<longrightarrow>
      gibbs_sharpe_student P returns hp g0 = Inl ValueError) \<and>
   (n_iter hp \<le> burn_in hp \<and> gibbs_chain P returns hp g0 = Inr st \<longrightarrow>
      gibbs_sharpe_student P returns hp g0 = Inr (([], [], []), rng st))"
proof (intro conjI impI)
  assume "np_random_seed P (seed hp) g0 = Inr g \<and> n_iter hp = 0"
  then show "gibbs_sharpe_student P returns hp g0 = Inr (([], [], []), g)"
    by (simp add: gibbs_sharpe_student_def gibbs_chain_def gibbs_init_def np_zeros_def
        py_slice_from_def Let_def)
next
  assume h: "tau2 hp = Fin 0 \<and> 0 < n_iter hp \<and> chain_state P returns hp g0 0 = Inr st0 \<and>
    update_lambdas P hp returns st0 = Inr st1"
  then obtain g1 where s: "np_random_seed P (seed hp) g0 = Inr g1"
    and i: "gibbs_init hp returns g1 = Inr st0"
    by (auto simp: chain_state_0 split: sum.splits)
  from h have "[0..<nat (n_iter hp)] = 0 # [1..<nat (n_iter hp)]"
    by (simp add: upt_rec)
  moreover have "update_mu P hp returns st1 = Inl ZeroDivisionError"
    using h by (simp add: update_mu_def py_truediv_def)
  ultimately show "gibbs_sharpe_student P returns hp g0 = Inl ZeroDivisionError"
    using h by (simp add: gibbs_sharpe_student_def gibbs_chain_def s i gibbs_iter_def)
next
  assume h: "rejects_nan_scale P \<and> length returns = 1 \<and> 0 < n_iter hp \<and>
    np_random_seed P (seed hp) g0 = Inr g"
  then obtain r where r: "returns = [r]" by (cases returns) auto
  from h have u: "[0..<nat (n_iter hp)] = 0 # [1..<nat (n_iter hp)]"
    by (simp add: upt_rec)
  from h obtain st0 where i: "gibbs_init hp returns g = Inr st0"
    by (auto simp: gibbs_init_def np_zeros_def Let_def)
  from gibbs_init_Inr[OF i] have "sigma2 st0 = NaN" by (simp add: r np_var_ddof1_single)
  then have "update_lambdas P hp returns st0 = Inl ValueError"
    using h by (simp add: update_lambdas_def Let_def r scale_of_NaN_variance
        rejects_nan_scale_def)
  then show "gibbs_sharpe_student P returns hp g0 = Inl ValueError"
    using h by (simp add: gibbs_sharpe_student_def gibbs_chain_def i u gibbs_iter_def)
next
  assume h: "n_iter hp \<le> burn_in hp \<and> gibbs_chain P returns hp g0 = Inr st"
  then have c: "gibbs_chain P returns hp g0 = Inr st"
    and le: "n_iter hp \<le> burn_in hp" by simp_all
  note len = gibbs_chain_lengths[OF c]
  from gibbs_chain_Inr[OF c] obtain g1 st0'
    where "np_random_seed P (seed hp) g0 = Inr g1" and "gibbs_init hp returns g1 = Inr st0'"
    by blast
  from gibbs_init_Inr[OF this(2)] have "0 \<le> n_iter hp" by simp
  with le c len show "gibbs_sharpe_student P returns hp g0 = Inr (([], [], []), rng st)"
    by (simp add: gibbs_sharpe_student_def py_slice_from_def)
qed

text \<open>
  One run for each of the four parts.
\<close>

theorem no_eager_validation_witness:
  "gibbs_sharpe_student det_sampler []
     (demo_hyper\<lparr>n_iter := 0, tau2 := Fin (- 1), a0 := Fin 0\<rparr>) (0::nat)
     = Inr (([], [], []), 0) \<and>
   gibbs_sharpe_student det_sampler demo_returns (demo_hyper\<lparr>tau2 := Fin 0\<rparr>) (0::nat)
     = Inl ZeroDivisionError \<and>
   gibbs_sharpe_student det_sampler [Fin 5] demo_hyper (0::nat) = Inl ValueError \<and>
   gibbs_sharpe_student det_sampler demo_returns (demo_hyper\<lparr>burn_in := 5\<rparr>) (0::nat)
     = Inr (([], [], []), 8)"
proof -
  let ?h1 = "demo_hyper\<lparr>n_iter := 0, tau2 := Fin (- 1), a0 := Fin 0\<rparr>"
  let ?h2 = "demo_hyper\<lparr>tau2 := Fin 0\<rparr>"
  let ?h4 = "demo_hyper\<lparr>burn_in := 5\<rparr>"
  have 1: "np_random_seed det_sampler (seed ?h1) (0::nat) = Inr 0 \<and> n_iter ?h1 = 0"
    by (simp add: demo_hyper_def det_sampler_def)
  have "\<exists>st0 st1. chain_state det_sampler demo_returns ?h2 (0::nat) 0 = Inr st0 \<and>
          update_lambdas det_sampler ?h2 demo_returns st0 = Inr st1"
    by (simp add: demo_eval)
  then obtain st0 st1
    where 2: "tau2 ?h2 = Fin 0 \<and> 0 < n_iter ?h2 \<and>
              chain_state det_sampler demo_returns ?h2 (0::nat) 0 = Inr st0 \<and>
              update_lambdas det_sampler ?h2 demo_returns st0 = Inr st1"
    by (auto simp: demo_hyper_def)
  have 3: "rejects_nan_scale det_sampler \<and> length [Fin 5] = 1 \<and> 0 < n_iter demo_hyper \<and>
           np_random_seed det_sampler (seed demo_hyper) (0::nat) = Inr 0"
    using det_sampler_rejects_nan_scale by (simp add: demo_hyper_def det_sampler_def)
  have "\<exists>st. gibbs_chain det_sampler demo_returns ?h4 (0::nat) = Inr st \<and> rng st = 8"
    by (simp add: demo_eval numeral_2_eq_2)
  then obtain st
    where 4: "n_iter ?h4 \<le> burn_in ?h4 \<and> gibbs_chain det_sampler demo_returns ?h4 (0::nat) = Inr st"
      and g: "rng st = 8"
    by (auto simp: demo_hyper_def)
  note t1 = no_eager_validation[of det_sampler ?h1 0 0 "[]" st0 st1 st, THEN conjunct1, rule_format, OF 1]
  note t2 = no_eager_validation[of det_sampler ?h2 0 0 demo_returns st0 st1 st,
      THEN conjunct2, THEN conjunct1, rule_format, OF 2]
  note t3 = no_eager_validation[of det_sampler demo_hyper 0 0 "[Fin 5]" st0 st1 st,
      THEN conjunct2, THEN conjunct2, THEN conjunct1, rule_format, OF 3]
  note t4 = no_eager_validation[of det_sampler ?h4 0 0 demo_returns st0 st1 st,
      THEN conjunct2, THEN conjunct2, THEN conjunct2, rule_format, OF 4]
  from t1 t2 t3 t4 g show ?thesis by simp
qed

text \<open>
  An input that violates \<open>burn_in < n_iter\<close> and nothing else returns normally.
\<close>

theorem no_eager_validation_counterexample:
  "valid_hyper demo_hyper \<and> valid_returns demo_returns \<and> \<not> all_equal demo_returns \<and>
   n_iter (demo_hyper\<lparr>burn_in := 2\<rparr>) \<le> burn_in (demo_hyper\<lparr>burn_in := 2\<rparr>) \<and>
   gibbs_sharpe_student det_sampler demo_returns (demo_hyper\<lparr>burn_in := 2\<rparr>) (0::nat)
     = Inr (([], [], []), 8)"
  by (simp add: demo_eval valid_hyper_def valid_returns_def all_equal_def numeral_2_eq_2)

section \<open>Running to completion\<close>




section \<open>A burn-in as long as the chain\<close>

text \<open>
  C10. With \<open>burn_in \<ge> n_iter\<close> the function fails exactly when the same call with
  \<open>burn_in = 0\<close> fails, with the same error, and otherwise returns three empty sequences
  and the generator state of that call: all iterations are run and nothing is raised for
  the burn-in.
\<close>

theorem burn_in_beyond_chain:
  assumes "n_iter hp \<le> burn_in hp"
  shows "gibbs_sharpe_student P returns hp g0 =
         (case gibbs_sharpe_student P returns (hp\<lparr>burn_in := 0\<rparr>) g0 of
            Inl e \<Rightarrow> Inl e
          | Inr (full, g) \<Rightarrow> Inr (([], [], []), g))"
proof (cases "gibbs_chain P returns hp g0")
  case (Inl e)
  then show ?thesis by (simp add: gibbs_sharpe_student_def gibbs_chain_burn_in)
next
  case (Inr st)
  note len = gibbs_chain_lengths[OF Inr]
  from gibbs_chain_Inr[OF Inr] obtain g1 st0
    where "np_random_seed P (seed hp) g0 = Inr g1" and "gibbs_init hp returns g1 = Inr st0"
    by blast
  from gibbs_init_Inr[OF this(2)] have "0 \<le> n_iter hp" by simp
  with assms len have "py_slice_from (mu_samples st) (burn_in hp) = []"
    "py_slice_from (sigma2_samples st) (burn_in hp) = []"
    "py_slice_from (sharpe_samples st) (burn_in hp) = []"
    by (simp_all add: py_slice_from_def)
  with Inr show ?thesis by (simp add: gibbs_sharpe_student_def gibbs_chain_burn_in)
qed

text \<open>
  The small run with a burn-in of 7.
\<close>

theorem burn_in_beyond_chain_witness:
  "gibbs_sharpe_student det_sampler demo_returns (demo_hyper\<lparr>burn_in := 7\<rparr>) (0::nat)
   = Inr (([], [], []), 8)"
proof -
  have "\<exists>full. gibbs_sharpe_student det_sampler demo_returns (demo_hyper\<lparr>burn_in := 0\<rparr>) (0::nat)
          = Inr (full, 8)"
    by (simp add: demo_eval numeral_2_eq_2)
  moreover have "n_iter (demo_hyper\<lparr>burn_in := 7\<rparr>) \<le> burn_in (demo_hyper\<lparr>burn_in := 7\<rparr>)"
    by (simp add: demo_hyper_def)
  ultimately show ?thesis
    using burn_in_beyond_chain[of "demo_hyper\<lparr>burn_in := 7\<rparr>" det_sampler demo_returns 0]
    by auto
qed

end
